theory Spec2Isabelle
  imports Main "HOL-Library.Log_Nat"
begin

section \<open>Data model of \<open>src/components/Fetch.tsx\<close>\<close>

text \<open>
  The form payload \<open>{title, body}\<close> and the interface \<open>Post\<close> (lines 5-10). \<open>Post\<close> extends
  the payload record, which is how the source builds posts: by spreading \<open>values\<close> into an
  object that also has \<open>id\<close> and \<open>userId\<close>. The field \<open>id\<close> is named \<open>id_post\<close>, since
  \<open>id\<close> is the identity function of HOL.

  The ids of this program are integers, so a \<open>number\<close> that holds an id is modelled as the
  \<open>int\<close> it denotes. \<open>Math.max\<close> and \<open>===\<close> are exact on numbers. \<open>+\<close> is not: a number is a
  binary64 value with a significand of 53 bits, and the sum is the exact sum rounded to the
  nearest such value, ties to the even significand (\<open>number_add\<close> below).
\<close>

record Values =
  title :: string
  body :: string

record Post = Values +
  userId :: int
  id_post :: int

text \<open>
  Calls into the UI toolkit (\<open>message\<close>, \<open>notification\<close>, the two form instances) are kept
  in a log, in the order the source makes them. \<open>notification_error\<close> carries the
  \<open>message\<close> and the \<open>description\<close> of the source.
\<close>

datatype UiCall =
    message_success string
  | notification_error string string
  | form_resetFields
  | editForm_setFieldsValue Post

text \<open>The four \<open>useState\<close> cells of the component (lines 13-18) and the log.\<close>

record State =
  data :: "Post list"
  loading :: bool
  isEditModalVisible :: bool
  editingPost :: "Post option"
  ui :: "UiCall list"

text \<open>
  The four requests. The collection URL is fixed; \<open>axios_put\<close> and \<open>axios_delete\<close> carry the
  id that the source interpolates into the URL.
\<close>

datatype Request =
    axios_get
  | axios_post Post
  | axios_put int Post
  | axios_delete int

text \<open>
  A request that has been issued, with the two callbacks the source chains on it
  (\<open>.then(...).catch(...)\<close>). The callbacks are closures: they run later, on the state of
  that moment, and keep the variables of the handler that created them. The argument of
  \<open>onThen\<close> is \<open>res.data\<close>; only the list request reads it.
\<close>

record Call =
  request :: Request
  onThen :: "Post list \<Rightarrow> State \<Rightarrow> State"
  onCatch :: "State \<Rightarrow> State"

datatype Outcome = Fulfilled "Post list" | Rejected

section \<open>Arithmetic of \<open>number\<close> on integers\<close>

text \<open>
  The integer \<open>n\<close> rounded to the nearest binary64 value. With \<open>a = |n|\<close>, the significand
  keeps the 53 leading bits of \<open>a\<close>: \<open>e\<close> is the number of low bits that do not fit, \<open>q\<close> the
  bits kept and \<open>r\<close> the bits dropped. The result is \<open>q * 2^e\<close> when \<open>r\<close> is below half of
  \<open>2^e\<close>, or equal to it with \<open>q\<close> even, and \<open>(q + 1) * 2^e\<close> otherwise. The exponent range of
  binary64 is not modelled: the sum of a finite integer number and 1 never overflows.
\<close>

definition binary64 :: "int \<Rightarrow> int" where
  "binary64 n =
     (let a = \<bar>n\<bar>;
          e = nat (bitlen a - 53);
          q = a div 2 ^ e;
          r = a mod 2 ^ e
      in if 2 * r < 2 ^ e \<or> (2 * r = 2 ^ e \<and> even q)
         then sgn n * (q * 2 ^ e)
         else sgn n * ((q + 1) * 2 ^ e))"

text \<open>\<open>x + y\<close> on two numbers that hold integers.\<close>

definition number_add :: "int \<Rightarrow> int \<Rightarrow> int" where
  "number_add x y = binary64 (x + y)"

section \<open>State setters and toolkit calls\<close>

definition setData :: "Post list \<Rightarrow> State \<Rightarrow> State" where
  "setData d s = s\<lparr>data := d\<rparr>"

text \<open>\<open>setData((prevData) => f(prevData))\<close>: the updater reads the state of the moment.\<close>

definition setData_prev :: "(Post list \<Rightarrow> Post list) \<Rightarrow> State \<Rightarrow> State" where
  "setData_prev f s = s\<lparr>data := f (data s)\<rparr>"

definition setLoading :: "bool \<Rightarrow> State \<Rightarrow> State" where
  "setLoading b s = s\<lparr>loading := b\<rparr>"

definition setIsEditModalVisible :: "bool \<Rightarrow> State \<Rightarrow> State" where
  "setIsEditModalVisible b s = s\<lparr>isEditModalVisible := b\<rparr>"

definition setEditingPost :: "Post option \<Rightarrow> State \<Rightarrow> State" where
  "setEditingPost p s = s\<lparr>editingPost := p\<rparr>"

definition toolkit :: "UiCall \<Rightarrow> State \<Rightarrow> State" where
  "toolkit c s = s\<lparr>ui := ui s @ [c]\<rparr>"

text \<open>The statements of a function body, run from first to last.\<close>

definition statements :: "(State \<Rightarrow> State) list \<Rightarrow> State \<Rightarrow> State" where
  "statements fs s = fold (\<lambda>f. f) fs s"

section \<open>The handlers\<close>

text \<open>The mount effect (lines 20-35).\<close>

definition useEffect_fetch :: "State \<Rightarrow> State \<times> Call option" where
  "useEffect_fetch s =
     (setLoading True s,
      Some \<lparr>request = axios_get,
            onThen = (\<lambda>res. statements [setData res, setLoading False]),
            onCatch = statements
              [toolkit (notification_error ''Error Fetching Data''
                 ''Unable to fetch posts from the server. Please try again later.''),
               setLoading False]\<rparr>)"

text \<open>
  Line 79: \<open>data.length > 0 ? Math.max(...data.map((post) => post.id)) : 0\<close>. The list of
  ids is empty exactly when \<open>data\<close> is; \<open>Math.max\<close> of a non-empty argument list is the
  left fold of \<open>max\<close> over it.
\<close>

definition maxId :: "Post list \<Rightarrow> int" where
  "maxId posts = (case map id_post posts of [] \<Rightarrow> 0 | i # rest \<Rightarrow> fold max rest i)"

text \<open>
  Lines 80-84: \<open>{...values, id: maxId + 1, userId: 1}\<close>. The sum is a sum of numbers.
\<close>

definition newPost :: "Values \<Rightarrow> Post list \<Rightarrow> Post" where
  "newPost values posts =
     \<lparr>title = title values, body = body values, userId = 1,
      id_post = number_add (maxId posts) 1\<rparr>"

text \<open>
  \<open>onFinish\<close> (lines 76-101). Its success callback calls \<open>setData([...data, newPost])\<close> with
  the \<open>data\<close> of the handler's closure, that is the list of the moment \<open>onFinish\<close> was
  called, not a \<open>prevData\<close> updater.
\<close>

definition onFinish :: "Values \<Rightarrow> State \<Rightarrow> State \<times> Call option" where
  "onFinish values s =
     (setLoading True s,
      Some \<lparr>request = axios_post (newPost values (data s)),
            onThen = (\<lambda>_. statements
              [setData (data s @ [newPost values (data s)]),
               toolkit (message_success ''Post added successfully!''),
               toolkit form_resetFields,
               setLoading False]),
            onCatch = statements
              [toolkit (notification_error ''Error Adding Post''
                 ''Failed to add the post. Please try again later.''),
               setLoading False]\<rparr>)"

text \<open>\<open>handleEdit\<close> (lines 103-107) and the modal's \<open>onCancel\<close> (line 202).\<close>

definition handleEdit :: "Post \<Rightarrow> State \<Rightarrow> State" where
  "handleEdit post =
     statements
       [setEditingPost (Some post),
        toolkit (editForm_setFieldsValue post),
        setIsEditModalVisible True]"

definition onCancel :: "State \<Rightarrow> State" where
  "onCancel = setIsEditModalVisible False"

text \<open>Line 112: \<open>{...editingPost, ...values}\<close>.\<close>

definition updatedPost :: "Post \<Rightarrow> Values \<Rightarrow> Post" where
  "updatedPost ep values = ep\<lparr>title := title values, body := body values\<rparr>"

text \<open>\<open>handleUpdate\<close> (lines 109-132): it returns before any request when \<open>editingPost\<close> is null.\<close>

definition handleUpdate :: "Values \<Rightarrow> State \<Rightarrow> State \<times> Call option" where
  "handleUpdate values s =
     (case editingPost s of
        None \<Rightarrow> (s, None)
      | Some ep \<Rightarrow>
          (s,
           Some \<lparr>request = axios_put (id_post ep) (updatedPost ep values),
                 onThen = (\<lambda>_. statements
                   [setData_prev (map (\<lambda>post.
                      if id_post post = id_post ep then updatedPost ep values else post)),
                    toolkit (message_success ''Post updated successfully!''),
                    setIsEditModalVisible False,
                    setEditingPost None]),
                 onCatch = statements
                   [toolkit (notification_error ''Error Updating Post''
                      ''Failed to update the post. Please try again later.'')]\<rparr>))"

text \<open>\<open>handleDelete\<close> (lines 134-150).\<close>

definition handleDelete :: "int \<Rightarrow> State \<Rightarrow> State \<times> Call option" where
  "handleDelete k s =
     (setLoading True s,
      Some \<lparr>request = axios_delete k,
            onThen = (\<lambda>_. statements
              [setData_prev (filter (\<lambda>post. id_post post \<noteq> k)),
               toolkit (message_success ''Post deleted successfully!''),
               setLoading False]),
            onCatch = statements
              [toolkit (notification_error ''Error Deleting Post''
                 ''Failed to delete the post. Please try again later.''),
               setLoading False]\<rparr>)"

section \<open>Running an operation\<close>

text \<open>The promise settles: one of the two callbacks runs on the state of that moment.\<close>

definition settle :: "Outcome \<Rightarrow> Call \<Rightarrow> State \<Rightarrow> State" where
  "settle oc c s = (case oc of Fulfilled res \<Rightarrow> onThen c res s | Rejected \<Rightarrow> onCatch c s)"

text \<open>
  An operation from its start to the end of its callback, with no other event of the
  component in between.
\<close>

definition run :: "(State \<Rightarrow> State \<times> Call option) \<Rightarrow> Outcome \<Rightarrow> State \<Rightarrow> State" where
  "run h oc s = (case h s of (s1, None) \<Rightarrow> s1 | (s1, Some c) \<Rightarrow> settle oc c s1)"

text \<open>The request an operation issues, if any.\<close>

definition issued :: "(State \<Rightarrow> State \<times> Call option) \<Rightarrow> State \<Rightarrow> Request option" where
  "issued h s = map_option request (snd (h s))"

section \<open>A concrete state\<close>

text \<open>Two posts with ids 1 and 3, nothing in flight, the edit modal closed.\<close>

definition first_post :: Post where
  "first_post = \<lparr>title = ''a'', body = ''x'', userId = 1, id_post = 1\<rparr>"

definition third_post :: Post where
  "third_post = \<lparr>title = ''old'', body = ''y'', userId = 7, id_post = 3\<rparr>"

definition two_posts :: State where
  "two_posts =
     \<lparr>data = [first_post, third_post], loading = False, isEditModalVisible = False,
      editingPost = None, ui = []\<rparr>"

definition submitted :: Values where
  "submitted = \<lparr>title = ''t'', body = ''b''\<rparr>"

text \<open>
  One post whose id is \<open>2^53\<close>, a number that the list request can deliver: \<open>setData(res.data)\<close>
  stores the response as it comes.
\<close>

definition big_post :: Post where
  "big_post = \<lparr>title = ''big'', body = ''z'', userId = 1, id_post = 9007199254740992\<rparr>"

definition one_big_post :: State where
  "one_big_post =
     \<lparr>data = [big_post], loading = False, isEditModalVisible = False,
      editingPost = None, ui = []\<rparr>"

lemmas concrete =
  first_post_def third_post_def two_posts_def submitted_def big_post_def one_big_post_def

section \<open>Helper lemmas\<close>

lemmas setters =
  setData_def setData_prev_def setLoading_def setIsEditModalVisible_def setEditingPost_def
  toolkit_def statements_def

lemmas running = run_def settle_def issued_def

subsection \<open>Rounding\<close>

lemma binary64_small: "\<bar>n\<bar> < 2 ^ 53 \<Longrightarrow> binary64 n = n"
proof -
  assume "\<bar>n\<bar> < 2 ^ 53"
  then have "bitlen \<bar>n\<bar> \<le> 53"
    by (simp add: bitlen_le_iff_power)
  then have e: "nat (bitlen \<bar>n\<bar> - 53) = 0"
    by simp
  show ?thesis
    unfolding binary64_def Let_def e by (simp add: mult_sgn_abs)
qed

lemma bitlen_2_53: "bitlen (2 ^ 53) = 54"
  using bitlen_pow2 [of 1 53] by (simp add: compute_bitlen [of 1])

lemma binary64_pow: "binary64 (2 ^ 53) = 2 ^ 53"
proof -
  have e: "nat (bitlen \<bar>2 ^ 53\<bar> - 53) = 1"
    by (simp only: abs_of_nonneg zero_le_power zero_le_numeral bitlen_2_53)
  show ?thesis
    unfolding binary64_def Let_def e by simp
qed

lemma binary64_neg_pow: "binary64 (- (2 ^ 53)) = - (2 ^ 53)"
proof -
  have "\<bar>- (2 ^ 53) :: int\<bar> = 2 ^ 53"
    by simp
  then have e: "nat (bitlen \<bar>- (2 ^ 53)\<bar> - 53) = 1"
    by (simp only: bitlen_2_53)
  show ?thesis
    unfolding binary64_def Let_def e by simp
qed

lemma binary64_exact: "- (2 ^ 53) \<le> n \<Longrightarrow> n \<le> 2 ^ 53 \<Longrightarrow> binary64 n = n"
proof -
  assume lo: "- (2 ^ 53) \<le> n" and hi: "n \<le> 2 ^ 53"
  consider "n = 2 ^ 53" | "n = - (2 ^ 53)" | "\<bar>n\<bar> < 2 ^ 53"
    using lo hi by linarith
  then show ?thesis
    by cases (simp_all only: binary64_pow binary64_neg_pow binary64_small)
qed

lemma number_add_1_exact:
  "- (2 ^ 53) \<le> m \<Longrightarrow> m < 2 ^ 53 \<Longrightarrow> number_add m 1 = m + 1"
  unfolding number_add_def by (rule binary64_exact) simp_all

text \<open>\<open>2^53 + 1\<close> lies half way between two numbers and goes to the even one, \<open>2^53\<close>.\<close>

lemma binary64_tie: "binary64 9007199254740993 = 9007199254740992"
  by code_simp

lemma big_is_number: "binary64 9007199254740992 = 9007199254740992"
  by code_simp

subsection \<open>The largest id\<close>

lemma fold_max_eq_Max: "fold max rest (i::int) = Max (set (i # rest))"
  by (rule Max.set_eq_fold [symmetric])

lemma maxId_Nil: "maxId [] = 0"
  by (simp add: maxId_def)

lemma maxId_eq_Max: "posts \<noteq> [] \<Longrightarrow> maxId posts = Max (id_post ` set posts)"
proof (cases posts)
  case Nil
  assume "posts \<noteq> []"
  with Nil show ?thesis by simp
next
  case (Cons p ps)
  have "maxId (p # ps) = Max (set (id_post p # map id_post ps))"
    unfolding maxId_def by (simp only: list.map list.case fold_max_eq_Max)
  with Cons show ?thesis by simp
qed

lemma id_le_maxId: "p \<in> set posts \<Longrightarrow> id_post p \<le> maxId posts"
proof -
  assume m: "p \<in> set posts"
  then have ne: "posts \<noteq> []" by auto
  have "id_post p \<le> Max (id_post ` set posts)"
    using m by (intro Max_ge) auto
  with ne show ?thesis by (simp add: maxId_eq_Max)
qed

lemma newPost_id:
  "id_post (newPost values posts) =
     (if posts = [] then 1 else binary64 (1 + Max (id_post ` set posts)))"
proof (cases "posts = []")
  case True
  have "binary64 1 = 1"
    by (rule binary64_small) simp
  with True show ?thesis
    by (simp add: newPost_def number_add_def maxId_Nil)
next
  case False
  then show ?thesis
    by (simp add: newPost_def number_add_def maxId_eq_Max add.commute)
qed

lemma newPost_id_exact:
  assumes "posts = [] \<or>
           (- (2 ^ 53) \<le> Max (id_post ` set posts) \<and> Max (id_post ` set posts) < 2 ^ 53)"
  shows "id_post (newPost values posts) = maxId posts + 1"
proof (cases "posts = []")
  case True
  have "binary64 1 = 1"
    by (rule binary64_small) simp
  with True show ?thesis
    by (simp add: newPost_def number_add_def maxId_Nil)
next
  case False
  with assms have "- (2 ^ 53) \<le> maxId posts" and "maxId posts < 2 ^ 53"
    by (simp_all add: maxId_eq_Max)
  then show ?thesis
    by (simp add: newPost_def number_add_1_exact)
qed

lemma newPost_id_fresh:
  assumes "posts = [] \<or>
           (- (2 ^ 53) \<le> Max (id_post ` set posts) \<and> Max (id_post ` set posts) < 2 ^ 53)"
  shows "id_post (newPost values posts) \<notin> id_post ` set posts"
proof
  assume "id_post (newPost values posts) \<in> id_post ` set posts"
  then obtain p where p: "p \<in> set posts" and e: "id_post p = id_post (newPost values posts)"
    by auto
  from id_le_maxId [OF p] e newPost_id_exact [OF assms, of "values"] show False
    by simp
qed

subsection \<open>The list after a successful operation\<close>

lemma run_onFinish_data:
  "data (run (onFinish values) (Fulfilled res) s) = data s @ [newPost values (data s)]"
  by (simp add: running onFinish_def setters)

lemma run_handleDelete_data:
  "data (run (handleDelete k) (Fulfilled res) s) =
     filter (\<lambda>post. id_post post \<noteq> k) (data s)"
  by (simp add: running handleDelete_def setters)

lemma run_handleUpdate_data:
  "data (run (handleUpdate values) (Fulfilled res) s) =
     (case editingPost s of
        None \<Rightarrow> data s
      | Some ep \<Rightarrow>
          map (\<lambda>post. if id_post post = id_post ep then updatedPost ep values else post)
            (data s))"
  by (simp add: running handleUpdate_def setters split: option.split)

subsection \<open>Replacing and removing by id\<close>

lemma ids_replace:
  "map (id_post \<circ>
        (\<lambda>post. if id_post post = id_post ep then updatedPost ep values else post)) posts
     = map id_post posts"
  by (induction posts) (simp_all add: updatedPost_def)

lemma replace_other:
  "\<forall>p \<in> set posts. id_post p \<noteq> k \<Longrightarrow>
   map (\<lambda>post. if id_post post = k then u else post) posts = posts"
  by (induction posts) simp_all

lemma others_differ:
  assumes "distinct (map id_post (before @ old # after))"
  shows "\<forall>p \<in> set before \<union> set after. id_post p \<noteq> id_post old"
proof
  fix p
  assume "p \<in> set before \<union> set after"
  then have "id_post p \<in> id_post ` set before \<union> id_post ` set after"
    by blast
  moreover from assms have "id_post old \<notin> id_post ` set before \<union> id_post ` set after"
    by simp
  ultimately show "id_post p \<noteq> id_post old"
    by metis
qed

lemma absent_replace:
  "k \<notin> id_post ` set posts \<Longrightarrow>
   map (\<lambda>post. if id_post post = k then u else post) posts = posts"
  by (induction posts) simp_all

lemma absent_filter:
  "k \<notin> id_post ` set posts \<Longrightarrow> filter (\<lambda>post. id_post post \<noteq> k) posts = posts"
  by (induction posts) simp_all

subsection \<open>Callbacks that run after other events\<close>

text \<open>
  The callbacks of a call made in state \<open>s\<close> may run in any later state \<open>s'\<close>. No failure
  callback touches the list; the success callback of a create writes the list of the
  moment of the call with the new post appended, whatever the list has become since.
\<close>

lemma catch_keeps_posts:
  assumes "snd (onFinish values s) = Some c \<or> snd (handleUpdate values s) = Some c \<or>
           snd (handleDelete k s) = Some c"
  shows "data (onCatch c s') = data s'"
  using assms
  by (auto simp add: onFinish_def handleUpdate_def handleDelete_def setters
        split: option.splits)

lemma onFinish_then_closure:
  "snd (onFinish values s) = Some c \<Longrightarrow>
   data (onThen c res s') = data s @ [newPost values (data s)]"
  by (auto simp add: onFinish_def setters)

section \<open>Claims\<close>

text \<open>
  C1. The synthetic id of a create. The post that \<open>onFinish\<close> sends has id 1 on an empty
  list; on a non-empty list its id is 1 + the largest id rounded to a number, which is
  1 + the largest id \<open>m\<close> whenever \<open>-2^53 \<le> m < 2^53\<close>.
\<close>

theorem create_synthetic_id:
  "issued (onFinish values) s = Some (axios_post (newPost values (data s))) \<and>
   id_post (newPost values (data s)) =
     (if data s = [] then 1 else binary64 (1 + Max (id_post ` set (data s)))) \<and>
   (data s = [] \<or>
    (- (2 ^ 53) \<le> Max (id_post ` set (data s)) \<and> Max (id_post ` set (data s)) < 2 ^ 53)
    \<longrightarrow> id_post (newPost values (data s)) =
          (if data s = [] then 1 else 1 + Max (id_post ` set (data s))))"
proof (intro conjI impI)
  show "issued (onFinish values) s = Some (axios_post (newPost values (data s)))"
    by (simp add: issued_def onFinish_def)
  show "id_post (newPost values (data s)) =
          (if data s = [] then 1 else binary64 (1 + Max (id_post ` set (data s))))"
    by (rule newPost_id)
next
  assume "data s = [] \<or>
    (- (2 ^ 53) \<le> Max (id_post ` set (data s)) \<and> Max (id_post ` set (data s)) < 2 ^ 53)"
  from newPost_id_exact [OF this, of "values"]
  show "id_post (newPost values (data s)) =
          (if data s = [] then 1 else 1 + Max (id_post ` set (data s)))"
    by (simp add: maxId_Nil maxId_eq_Max)
qed

theorem create_synthetic_id_witness:
  "- (2 ^ 53) \<le> Max (id_post ` set (data two_posts)) \<and>
   Max (id_post ` set (data two_posts)) < 2 ^ 53 \<and>
   issued (onFinish submitted) two_posts =
     Some (axios_post \<lparr>title = ''t'', body = ''b'', userId = 1, id_post = 4\<rparr>)"
proof -
  have m: "Max (id_post ` set (data two_posts)) = 3"
    by (simp add: concrete)
  have n: "data two_posts \<noteq> []"
    by (simp add: two_posts_def)
  have i: "id_post (newPost submitted (data two_posts)) = 4"
    using create_synthetic_id [of submitted two_posts] n by (simp add: m)
  have "newPost submitted (data two_posts) =
          \<lparr>title = ''t'', body = ''b'', userId = 1, id_post = 4\<rparr>"
    using i by (simp add: newPost_def submitted_def)
  with create_synthetic_id [of submitted two_posts] m show ?thesis
    by simp
qed

text \<open>
  At the list that holds one post of id \<open>2^53\<close>, itself a number, the id sent is \<open>2^53\<close>
  again and not \<open>2^53 + 1\<close>.
\<close>

theorem create_synthetic_id_counterexample:
  "binary64 (id_post big_post) = id_post big_post \<and>
   data one_big_post \<noteq> [] \<and>
   id_post (newPost submitted (data one_big_post)) = 9007199254740992 \<and>
   1 + Max (id_post ` set (data one_big_post)) = 9007199254740993 \<and>
   id_post (newPost submitted (data one_big_post)) \<noteq>
     1 + Max (id_post ` set (data one_big_post))"
  by (simp add: concrete newPost_def number_add_def maxId_def binary64_tie big_is_number)

text \<open>
  C2. Unique ids are kept: from a list in which no two posts share an id, a successful
  update and a successful delete each give a list in which no two posts share an id, and
  so does a successful create when the list is empty or its largest id \<open>m\<close> has
  \<open>-2^53 \<le> m < 2^53\<close>.
\<close>

theorem unique_ids_preserved:
  assumes "distinct (map id_post (data s))"
  shows "(data s = [] \<or>
          (- (2 ^ 53) \<le> Max (id_post ` set (data s)) \<and>
           Max (id_post ` set (data s)) < 2 ^ 53)
          \<longrightarrow> distinct (map id_post (data (run (onFinish values) (Fulfilled res) s)))) \<and>
         distinct (map id_post (data (run (handleUpdate values') (Fulfilled res') s))) \<and>
         distinct (map id_post (data (run (handleDelete k) (Fulfilled res'') s)))"
proof (intro conjI impI)
  assume "data s = [] \<or>
    (- (2 ^ 53) \<le> Max (id_post ` set (data s)) \<and> Max (id_post ` set (data s)) < 2 ^ 53)"
  from newPost_id_fresh [OF this, of "values"] assms
  show "distinct (map id_post (data (run (onFinish values) (Fulfilled res) s)))"
    by (simp add: run_onFinish_data)
next
  show "distinct (map id_post (data (run (handleUpdate values') (Fulfilled res') s)))"
    using assms by (simp add: run_handleUpdate_data ids_replace split: option.split)
  show "distinct (map id_post (data (run (handleDelete k) (Fulfilled res'') s)))"
    using assms by (simp add: run_handleDelete_data distinct_map_filter)
qed

theorem unique_ids_preserved_witness:
  "distinct (map id_post (data (handleEdit third_post two_posts))) \<and>
   - (2 ^ 53) \<le> Max (id_post ` set (data (handleEdit third_post two_posts))) \<and>
   Max (id_post ` set (data (handleEdit third_post two_posts))) < 2 ^ 53 \<and>
   distinct (map id_post
     (data (run (onFinish submitted) (Fulfilled []) (handleEdit third_post two_posts)))) \<and>
   distinct (map id_post
     (data (run (handleUpdate submitted) (Fulfilled []) (handleEdit third_post two_posts)))) \<and>
   distinct (map id_post
     (data (run (handleDelete 3) (Fulfilled []) (handleEdit third_post two_posts))))"
proof -
  have h: "distinct (map id_post (data (handleEdit third_post two_posts)))"
    by (simp add: handleEdit_def setters concrete)
  have m: "Max (id_post ` set (data (handleEdit third_post two_posts))) = 3"
    by (simp add: handleEdit_def setters concrete)
  from unique_ids_preserved [OF h, of submitted "[]" submitted "[]" 3 "[]"] h
  show ?thesis
    by (simp add: m)
qed

text \<open>
  From the list that holds one post of id \<open>2^53\<close>, a successful create gives a list with two
  posts of id \<open>2^53\<close>.
\<close>

theorem unique_ids_preserved_counterexample:
  "distinct (map id_post (data one_big_post)) \<and>
   map id_post (data (run (onFinish submitted) (Fulfilled []) one_big_post)) =
     [9007199254740992, 9007199254740992] \<and>
   \<not> distinct (map id_post (data (run (onFinish submitted) (Fulfilled []) one_big_post)))"
  by (simp add: run_onFinish_data concrete newPost_def number_add_def maxId_def binary64_tie)

text \<open>
  C3. Update by id: when the list has unique ids and an entry with id \<open>k\<close>, and the post
  under edit has id \<open>k\<close>, a successful update replaces that one entry by the merged post
  (id and userId of the post under edit, title and body of the submitted values); the
  entries before and after it stay as they are, where they are.
\<close>

theorem update_replaces_entry:
  assumes uniq: "distinct (map id_post (data s))"
    and ed: "editingPost s = Some ep"
    and k: "id_post ep = k"
    and mem: "k \<in> id_post ` set (data s)"
  shows "\<exists>before old after.
           data s = before @ old # after \<and> id_post old = k \<and>
           (\<forall>p \<in> set before \<union> set after. id_post p \<noteq> k) \<and>
           data (run (handleUpdate values) (Fulfilled res) s) =
             before @ \<lparr>title = title values, body = body values,
                       userId = userId ep, id_post = k\<rparr> # after"
proof -
  from mem obtain old where old: "old \<in> set (data s)" and oldk: "id_post old = k"
    by auto
  from old obtain before after where decomp: "data s = before @ old # after"
    by (auto dest: split_list)
  from uniq have "distinct (map id_post (before @ old # after))"
    by (simp only: decomp)
  from others_differ [OF this]
  have others: "\<forall>p \<in> set before \<union> set after. id_post p \<noteq> k"
    by (simp only: oldk)
  let ?u = "updatedPost ep values"
  have merged:
    "?u = \<lparr>title = title values, body = body values, userId = userId ep, id_post = k\<rparr>"
    using k by (simp add: updatedPost_def)
  have "data (run (handleUpdate values) (Fulfilled res) s) =
          map (\<lambda>post. if id_post post = k then ?u else post) (before @ old # after)"
    using ed k by (simp add: run_handleUpdate_data decomp)
  also have "\<dots> = before @ ?u # after"
    using others oldk by (simp add: replace_other)
  finally have result:
    "data (run (handleUpdate values) (Fulfilled res) s) =
       before @ \<lparr>title = title values, body = body values,
                 userId = userId ep, id_post = k\<rparr> # after"
    by (simp only: merged)
  show ?thesis
  proof (intro exI conjI)
    show "data s = before @ old # after"
      by (rule decomp)
    show "id_post old = k"
      by (rule oldk)
    show "\<forall>p \<in> set before \<union> set after. id_post p \<noteq> k"
      by (rule others)
    show "data (run (handleUpdate values) (Fulfilled res) s) =
            before @ \<lparr>title = title values, body = body values,
                      userId = userId ep, id_post = k\<rparr> # after"
      by (rule result)
  qed
qed

theorem update_replaces_entry_witness:
  "distinct (map id_post (data (handleEdit third_post two_posts))) \<and>
   editingPost (handleEdit third_post two_posts) = Some third_post \<and>
   id_post third_post = 3 \<and>
   3 \<in> id_post ` set (data (handleEdit third_post two_posts)) \<and>
   (\<exists>before old after.
      data (handleEdit third_post two_posts) = before @ old # after \<and> id_post old = 3 \<and>
      (\<forall>p \<in> set before \<union> set after. id_post p \<noteq> 3) \<and>
      data (run (handleUpdate submitted) (Fulfilled []) (handleEdit third_post two_posts)) =
        before @ \<lparr>title = title submitted, body = body submitted,
                  userId = userId third_post, id_post = 3\<rparr> # after)"
proof -
  have h1: "distinct (map id_post (data (handleEdit third_post two_posts)))"
    by (simp add: handleEdit_def setters concrete)
  have h2: "editingPost (handleEdit third_post two_posts) = Some third_post"
    by (simp add: handleEdit_def setters)
  have h3: "id_post third_post = 3"
    by (simp add: third_post_def)
  have h4: "3 \<in> id_post ` set (data (handleEdit third_post two_posts))"
    by (simp add: handleEdit_def setters concrete)
  from update_replaces_entry [OF h1 h2 h3 h4, of submitted "[]"] h1 h2 h3 h4
  show ?thesis by blast
qed

text \<open>
  C4. Delete by id: after a successful delete of \<open>k\<close> no entry of the list has id \<open>k\<close>, and
  the entries with another id are the same ones, in the same order, as before.
\<close>

theorem delete_removes_id:
  "(\<forall>p \<in> set (data (run (handleDelete k) (Fulfilled res) s)). id_post p \<noteq> k) \<and>
   filter (\<lambda>p. id_post p \<noteq> k) (data (run (handleDelete k) (Fulfilled res) s)) =
     filter (\<lambda>p. id_post p \<noteq> k) (data s)"
  by (simp add: run_handleDelete_data)

theorem delete_removes_id_witness:
  "first_post \<in> set (data (run (handleDelete 3) (Fulfilled []) two_posts)) \<and>
   id_post first_post \<noteq> 3 \<and>
   filter (\<lambda>p. id_post p \<noteq> 3) (data (run (handleDelete 3) (Fulfilled []) two_posts)) =
     [first_post]"
proof -
  have m: "first_post \<in> set (data (run (handleDelete 3) (Fulfilled []) two_posts))"
    by (simp add: run_handleDelete_data concrete)
  have f: "filter (\<lambda>p. id_post p \<noteq> 3) (data two_posts) = [first_post]"
    by (simp add: concrete)
  from delete_removes_id [of 3 "[]" two_posts] m f show ?thesis by auto
qed

text \<open>
  C5. Failure does not mutate: when the request of a create, an update or a delete is
  rejected, the list after the failure callback is the list from before the operation.
\<close>

theorem failure_keeps_posts:
  "data (run (onFinish values) Rejected s) = data s \<and>
   data (run (handleUpdate values) Rejected s) = data s \<and>
   data (run (handleDelete k) Rejected s) = data s"
  by (simp add: running onFinish_def handleUpdate_def handleDelete_def setters
        split: option.split)

text \<open>
  C6. A successful create appends exactly one entry at the end of the list: the submitted
  title and body with \<open>userId = 1\<close> and the synthetic id, which is the id of the post that was
  sent (1 on an empty list, otherwise 1 + the largest id as a number).
\<close>

theorem create_appends:
  "data (run (onFinish values) (Fulfilled res) s) =
     data s @ [\<lparr>title = title values, body = body values, userId = 1,
                id_post = (if data s = [] then 1
                           else binary64 (1 + Max (id_post ` set (data s))))\<rparr>] \<and>
   issued (onFinish values) s =
     Some (axios_post \<lparr>title = title values, body = body values, userId = 1,
                       id_post = (if data s = [] then 1
                                  else binary64 (1 + Max (id_post ` set (data s))))\<rparr>)"
proof -
  have "newPost values (data s) =
          \<lparr>title = title values, body = body values, userId = 1,
           id_post = id_post (newPost values (data s))\<rparr>"
    by (simp add: newPost_def)
  then have "newPost values (data s) =
          \<lparr>title = title values, body = body values, userId = 1,
           id_post = (if data s = [] then 1
                      else binary64 (1 + Max (id_post ` set (data s))))\<rparr>"
    by (simp only: newPost_id)
  then show ?thesis
    by (simp add: run_onFinish_data issued_def onFinish_def)
qed

text \<open>
  C7. The loading flag: the initial fetch, create and delete set it at their start, and
  both of their callbacks clear it; \<open>handleUpdate\<close> leaves it as it is, at its start, on its
  early return and in both of its callbacks, in whatever state they run.
\<close>

theorem loading_flag:
  "loading (fst (useEffect_fetch s)) \<and> \<not> loading (run useEffect_fetch oc s) \<and>
   loading (fst (onFinish values s)) \<and> \<not> loading (run (onFinish values) oc s) \<and>
   loading (fst (handleDelete k s)) \<and> \<not> loading (run (handleDelete k) oc s) \<and>
   loading (fst (handleUpdate values s)) = loading s \<and>
   loading (run (handleUpdate values) oc s) = loading s \<and>
   (\<forall>c s'. snd (handleUpdate values s) = Some c \<longrightarrow> loading (settle oc c s') = loading s')"
  by (cases oc)
     (auto simp add: running useEffect_fetch_def onFinish_def handleUpdate_def handleDelete_def
        setters split: option.splits)

theorem loading_flag_witness:
  "\<exists>c. snd (handleUpdate submitted (handleEdit third_post two_posts)) = Some c \<and>
       loading (settle Rejected c (fst (handleDelete 1 two_posts))) \<and>
       loading (settle (Fulfilled []) c (fst (handleDelete 1 two_posts)))"
proof -
  obtain c where c: "snd (handleUpdate submitted (handleEdit third_post two_posts)) = Some c"
    by (simp add: handleUpdate_def handleEdit_def setters)
  have l: "loading (fst (handleDelete 1 two_posts))"
    by (simp add: handleDelete_def setters)
  from loading_flag [of "handleEdit third_post two_posts" Rejected submitted 1]
    loading_flag [of "handleEdit third_post two_posts" "Fulfilled []" submitted 1] c l
  show ?thesis by auto
qed

text \<open>
  C8. With no post under edit, \<open>handleUpdate\<close> does nothing: it issues no request and
  returns the state it was given, with the list, the loading flag, the post under edit
  and the modal flag as they were.
\<close>

theorem update_without_editingPost:
  "editingPost s = None \<Longrightarrow>
   handleUpdate values s = (s, None) \<and> issued (handleUpdate values) s = None \<and>
   run (handleUpdate values) oc s = s"
  by (simp add: running handleUpdate_def)

theorem update_without_editingPost_witness:
  "editingPost two_posts = None \<and>
   handleUpdate submitted two_posts = (two_posts, None) \<and>
   issued (handleUpdate submitted) two_posts = None \<and>
   run (handleUpdate submitted) Rejected two_posts = two_posts"
proof -
  have h: "editingPost two_posts = None"
    by (simp add: two_posts_def)
  from update_without_editingPost [OF h, of submitted Rejected] h show ?thesis by simp
qed

text \<open>
  C9. A successful delete of an id that no entry has leaves the list as it was; the request
  is issued and the only toolkit call is the success message.
\<close>

theorem delete_absent_id:
  "k \<notin> id_post ` set (data s) \<Longrightarrow>
   issued (handleDelete k) s = Some (axios_delete k) \<and>
   data (run (handleDelete k) (Fulfilled res) s) = data s \<and>
   ui (run (handleDelete k) (Fulfilled res) s) =
     ui s @ [message_success ''Post deleted successfully!'']"
  by (simp add: running handleDelete_def setters absent_filter)

theorem delete_absent_id_witness:
  "5 \<notin> id_post ` set (data two_posts) \<and>
   issued (handleDelete 5) two_posts = Some (axios_delete 5) \<and>
   data (run (handleDelete 5) (Fulfilled []) two_posts) = data two_posts \<and>
   ui (run (handleDelete 5) (Fulfilled []) two_posts) =
     ui two_posts @ [message_success ''Post deleted successfully!'']"
proof -
  have h: "5 \<notin> id_post ` set (data two_posts)"
    by (simp add: concrete)
  from delete_absent_id [OF h, of "[]"] h show ?thesis by simp
qed

text \<open>
  C10. A successful update whose post under edit has an id that no entry has leaves the
  list as it was and inserts nothing; it still shows the success message, closes the modal
  and clears the post under edit.
\<close>

theorem update_absent_id:
  "editingPost s = Some ep \<Longrightarrow> id_post ep \<notin> id_post ` set (data s) \<Longrightarrow>
   data (run (handleUpdate values) (Fulfilled res) s) = data s \<and>
   ui (run (handleUpdate values) (Fulfilled res) s) =
     ui s @ [message_success ''Post updated successfully!''] \<and>
   \<not> isEditModalVisible (run (handleUpdate values) (Fulfilled res) s) \<and>
   editingPost (run (handleUpdate values) (Fulfilled res) s) = None"
  by (simp add: running handleUpdate_def setters absent_replace)

text \<open>
  The witness is the example of the claim: the modal is opened on post 3, post 3 is then
  deleted, and the update is submitted.
\<close>

theorem update_absent_id_witness:
  "editingPost (run (handleDelete 3) (Fulfilled []) (handleEdit third_post two_posts)) =
     Some third_post \<and>
   id_post third_post \<notin>
     id_post ` set (data (run (handleDelete 3) (Fulfilled []) (handleEdit third_post two_posts))) \<and>
   data (run (handleUpdate submitted) (Fulfilled [])
          (run (handleDelete 3) (Fulfilled []) (handleEdit third_post two_posts))) =
     [first_post] \<and>
   editingPost (run (handleUpdate submitted) (Fulfilled [])
          (run (handleDelete 3) (Fulfilled []) (handleEdit third_post two_posts))) = None"
proof -
  let ?s = "run (handleDelete 3) (Fulfilled []) (handleEdit third_post two_posts)"
  have h1: "editingPost ?s = Some third_post"
    by (simp add: running handleDelete_def handleEdit_def setters)
  have d: "data ?s = [first_post]"
    by (simp add: running handleDelete_def handleEdit_def setters concrete)
  have h2: "id_post third_post \<notin> id_post ` set (data ?s)"
    by (simp add: d) (simp add: concrete)
  from update_absent_id [OF h1 h2, of submitted "[]"] h1 h2 d show ?thesis by simp
qed

end
